theory Spec2Isabelle
  imports Complex_Main
begin

section \<open>Data model of \<^verbatim>\<open>src/hooks/useAutoSizer.ts\<close>\<close>

text \<open>
  The hook \<^verbatim>\<open>useAutoSizer\<close> estimates column widths of a virtualised grid and asks
  the grid for a re-layout when the visible region moves. JavaScript numbers are
  modelled without rounding and without NaN: row and column indices and row counts
  are integers (\<^typ>\<open>int\<close>), widths are \<^typ>\<open>real\<close>, milliseconds are \<^typ>\<open>nat\<close>.
\<close>

datatype ResizeStrategy = lazy | full

record ViewPortProps =
  rowStartIndex :: int
  rowStopIndex :: int
  columnStartIndex :: int
  columnStopIndex :: int

record CellInterface =
  rowIndex :: int
  columnIndex :: int

text \<open>
  What \<^verbatim>\<open>getValue\<close> may return (\<^verbatim>\<open>any\<close>): \<^verbatim>\<open>undefined\<close>, \<^verbatim>\<open>null\<close>, or a value
  that the canvas renders as a text.
\<close>

datatype js_value = Undefined | Null | Text string

record TextMetrics =
  width :: real

text \<open>
  The 2d context of the canvas: its mutable \<^verbatim>\<open>font\<close> and the rendering engine's
  measurement, a function of the font and the text, which the hook takes as given.
\<close>

record CanvasRenderingContext2D =
  ctx_font :: string
  ctx_measure :: "string \<Rightarrow> string \<Rightarrow> real"

text \<open>
  The DOM as far as \<^verbatim>\<open>AutoSizerCanvas\<close> uses it: whether
  \<^verbatim>\<open>canvas.getContext("2d")\<close> returns a context (it may return \<^verbatim>\<open>null\<close>), and the
  engine's text measurement.
\<close>

record document =
  getContext2d :: bool
  engine_measure :: "string \<Rightarrow> string \<Rightarrow> real"

text \<open>The object \<^verbatim>\<open>AutoSizerCanvas\<close> returns; its \<^verbatim>\<open>context\<close> (here \<open>ctx\<close>) is \<open>None\<close> for \<^verbatim>\<open>null\<close>.\<close>

record canvas =
  ctx :: "CanvasRenderingContext2D option"

text \<open>
  The options of \<^verbatim>\<open>IProps\<close>; \<open>None\<close> is an option left \<^verbatim>\<open>undefined\<close>.
  \<^verbatim>\<open>gridRef.current\<close> is kept as a flag: whether the host grid is attached.
\<close>

record IProps =
  prop_gridRef :: bool
  prop_getValue :: "CellInterface \<Rightarrow> js_value"
  prop_initialVisibleRows :: "int option"
  prop_minColumnWidth :: "real option"
  prop_cellSpacing :: "real option"
  prop_timeout :: "nat option"
  prop_resizeOnScroll :: "bool option"
  prop_font :: "string option"
  prop_resizeStrategy :: "ResizeStrategy option"
  prop_rowCount :: "int option"

datatype error = InvariantViolation string

text \<open>
  What reaches the host grid from the deferred call: \<^verbatim>\<open>resetAfterIndices\<close> with its
  argument, or the \<^verbatim>\<open>TypeError\<close> of calling it on an absent \<^verbatim>\<open>gridRef.current\<close>.
\<close>

datatype host_effect = ResetAfterIndices CellInterface | TypeError

subsection \<open>The debounced function\<close>

text \<open>
  Modelled from the spec: \<^verbatim>\<open>debounce\<close> of \<^verbatim>\<open>./../helpers\<close> is imported by the hook
  and is not among the sources. The spec describes it as a cancel-and-reschedule
  single-slot timer: calls arriving within the delay of each other collapse into a
  single trailing invocation carrying the most recent arguments, no invocation fires
  before the quiet period elapses, and the timer resets on every call.
  The slot holds the deadline and the arguments of the pending invocation.
\<close>

type_synonym 'a debounced = "(nat \<times> 'a) option"

definition debounce :: "'a debounced" where
  "debounce = None"

definition debounce_call :: "nat \<Rightarrow> nat \<Rightarrow> 'a \<Rightarrow> 'a debounced \<Rightarrow> 'a debounced" where
  "debounce_call wait t args d = Some (t + wait, args)"

definition debounce_due :: "nat \<Rightarrow> 'a debounced \<Rightarrow> (nat \<times> 'a) option" where
  "debounce_due t d =
     (case d of
        None \<Rightarrow> None
      | Some (deadline, args) \<Rightarrow> if deadline \<le> t then Some (deadline, args) else None)"

subsection \<open>The state of one hook instance\<close>

text \<open>
  The destructured options (with their defaults applied), the refs
  (\<^verbatim>\<open>autoSizer\<close>, \<^verbatim>\<open>isMounted\<close>, \<^verbatim>\<open>debounceResizer\<close>, \<^verbatim>\<open>gridRef.current\<close>) and the
  state of \<^verbatim>\<open>useState\<close>, in two fields. \<open>viewportState\<close> is React's state cell,
  which \<^verbatim>\<open>setViewport\<close> writes. \<open>viewport\<close> is the constant \<^verbatim>\<open>viewport\<close> of the
  render whose callbacks the host grid holds: \<^verbatim>\<open>getColumnWidth\<close> and
  \<^verbatim>\<open>handleViewChange\<close> close over it (dependency lists of lines 104 and 129), and
  only a re-render that hands the grid new callbacks refreshes it from the state
  cell. \<open>clock\<close> is the virtual time in milliseconds and \<open>hostCalls\<close> the
  timestamped log of what the deferred calls did to the host grid.
\<close>

record hook =
  getValue :: "CellInterface \<Rightarrow> js_value"
  initialVisibleRows :: int
  cellSpacing :: real
  minColumnWidth :: real
  timeout :: nat
  resizeStrategy :: ResizeStrategy
  rowCount :: "int option"
  resizeOnScroll :: bool
  font :: string
  gridRef_current :: bool
  autoSizer :: canvas
  viewport :: ViewPortProps
  viewportState :: ViewPortProps
  isMounted :: bool
  debounceResizer :: "CellInterface debounced"
  clock :: nat
  hostCalls :: "(nat \<times> host_effect) list"

section \<open>The text measurement provider\<close>

definition setFont :: "string \<Rightarrow> canvas \<Rightarrow> canvas" where
  "setFont f c =
     (case ctx c of
        None \<Rightarrow> c
      | Some cx \<Rightarrow> c\<lparr>ctx := Some (cx\<lparr>ctx_font := f\<rparr>)\<rparr>)"

definition measureText :: "canvas \<Rightarrow> string \<Rightarrow> TextMetrics option" where
  "measureText c txt =
     (case ctx c of
        None \<Rightarrow> None
      | Some cx \<Rightarrow> Some \<lparr>width = ctx_measure cx (ctx_font cx) txt\<rparr>)"

definition AutoSizerCanvas :: "document \<Rightarrow> string \<Rightarrow> canvas" where
  "AutoSizerCanvas doc defaultFont =
     setFont defaultFont
       \<lparr>ctx =
          (if getContext2d doc
           then Some \<lparr>ctx_font = ''10px sans-serif'', ctx_measure = engine_measure doc\<rparr>
           else None)\<rparr>"

section \<open>Construction\<close>

definition invariant :: "bool \<Rightarrow> string \<Rightarrow> error + unit" where
  "invariant condition message = (if condition then Inr () else Inl (InvariantViolation message))"

definition useAutoSizer :: "document \<Rightarrow> IProps \<Rightarrow> error + hook" where
  "useAutoSizer doc p =
     (let initialVisibleRows' = (case prop_initialVisibleRows p of None \<Rightarrow> 20 | Some n \<Rightarrow> n);
          cellSpacing' = (case prop_cellSpacing p of None \<Rightarrow> 10 | Some s \<Rightarrow> s);
          minColumnWidth' = (case prop_minColumnWidth p of None \<Rightarrow> 60 | Some w \<Rightarrow> w);
          timeout' = (case prop_timeout p of None \<Rightarrow> 300 | Some t \<Rightarrow> t);
          resizeStrategy' = (case prop_resizeStrategy p of None \<Rightarrow> lazy | Some s \<Rightarrow> s);
          rowCount' = prop_rowCount p;
          resizeOnScroll' = (case prop_resizeOnScroll p of None \<Rightarrow> True | Some b \<Rightarrow> b);
          font' = (case prop_font p of None \<Rightarrow> ''12px Arial'' | Some f \<Rightarrow> f)
      in case invariant (\<not> (resizeStrategy' = full \<and> rowCount' = None))
                ''Row count should be specified if resize stragtegy is full'' of
           Inl e \<Rightarrow> Inl e
         | Inr _ \<Rightarrow>
             Inr \<lparr>getValue = prop_getValue p,
                  initialVisibleRows = initialVisibleRows',
                  cellSpacing = cellSpacing',
                  minColumnWidth = minColumnWidth',
                  timeout = timeout',
                  resizeStrategy = resizeStrategy',
                  rowCount = rowCount',
                  resizeOnScroll = resizeOnScroll',
                  font = font',
                  gridRef_current = prop_gridRef p,
                  autoSizer = AutoSizerCanvas doc font',
                  viewport = \<lparr>rowStartIndex = 0, rowStopIndex = 0,
                              columnStartIndex = 0, columnStopIndex = 0\<rparr>,
                  viewportState = \<lparr>rowStartIndex = 0, rowStopIndex = 0,
                                   columnStartIndex = 0, columnStopIndex = 0\<rparr>,
                  isMounted = False,
                  debounceResizer = debounce,
                  clock = 0,
                  hostCalls = []\<rparr>)"

text \<open>
  The two effects that run after the first commit: \<^verbatim>\<open>isMounted.current = true\<close> and
  \<^verbatim>\<open>autoSizer.current.setFont(font)\<close>.
\<close>

definition mount :: "hook \<Rightarrow> hook" where
  "mount st = st\<lparr>isMounted := True, autoSizer := setFont (font st) (autoSizer st)\<rparr>"

text \<open>
  A re-render that hands the host grid new callbacks. React runs the effects that are
  still pending before it renders again, and the new callbacks close over the
  \<^verbatim>\<open>viewport\<close> that the state cell holds.
\<close>

definition render :: "hook \<Rightarrow> hook" where
  "render st = (mount st)\<lparr>viewport := viewportState st\<rparr>"

section \<open>The width estimator\<close>

text \<open>\<^verbatim>\<open>getValue(...) ?? null\<close>: \<^verbatim>\<open>undefined\<close> and \<^verbatim>\<open>null\<close> both become \<^verbatim>\<open>null\<close>.\<close>

definition nullish_null :: "js_value \<Rightarrow> js_value" where
  "nullish_null v = (case v of Undefined \<Rightarrow> Null | Null \<Rightarrow> Null | Text s \<Rightarrow> Text s)"

text \<open>
  \<^verbatim>\<open>const visibleRows = resizeStrategy === full ? rowCount : rowStopIndex || initialVisibleRows\<close>.
  \<open>None\<close> is \<^verbatim>\<open>undefined\<close> (a \<^verbatim>\<open>rowCount\<close> that was never given); \<^verbatim>\<open>a || b\<close> is \<^verbatim>\<open>b\<close>
  when the number \<^verbatim>\<open>a\<close> is \<^verbatim>\<open>0\<close> and \<^verbatim>\<open>a\<close> otherwise.
\<close>

definition visibleRows :: "hook \<Rightarrow> int option" where
  "visibleRows st =
     (if resizeStrategy st = full then rowCount st
      else if rowStopIndex (viewport st) \<noteq> 0 then Some (rowStopIndex (viewport st))
      else Some (initialVisibleRows st))"

text \<open>\<^verbatim>\<open>start < visibleRows\<close>; a comparison with \<^verbatim>\<open>undefined\<close> is false.\<close>

definition loop_guard :: "int option \<Rightarrow> int \<times> real \<Rightarrow> bool" where
  "loop_guard bound s = (case bound of None \<Rightarrow> False | Some b \<Rightarrow> fst s < b)"

text \<open>
  One pass through the body of the \<^verbatim>\<open>while\<close> loop, on the pair of the loop's
  variables \<^verbatim>\<open>start\<close> and \<^verbatim>\<open>maxWidth\<close>.
\<close>

definition loop_body :: "hook \<Rightarrow> int \<Rightarrow> int \<times> real \<Rightarrow> int \<times> real" where
  "loop_body st cidx s =
     (let start = fst s; maxWidth = snd s;
          val = nullish_null (getValue st \<lparr>rowIndex = start, columnIndex = cidx\<rparr>);
          maxWidth' =
            (case val of
               Text txt \<Rightarrow>
                 (case measureText (autoSizer st) txt of
                    Some metrics \<Rightarrow>
                      (let w = of_int \<lceil>width metrics\<rceil> + cellSpacing st
                       in if w > maxWidth then w else maxWidth)
                  | None \<Rightarrow> maxWidth)
             | _ \<Rightarrow> maxWidth)
      in (start + 1, maxWidth'))"

function while_loop :: "hook \<Rightarrow> int \<Rightarrow> int option \<Rightarrow> int \<times> real \<Rightarrow> int \<times> real" where
  "while_loop st cidx bound s =
     (if loop_guard bound s then while_loop st cidx bound (loop_body st cidx s) else s)"
  by pat_completeness auto
termination
  by (relation "measure (\<lambda>(st, cidx, bound, s). case bound of None \<Rightarrow> 0 | Some b \<Rightarrow> nat (b - fst s))")
     (auto simp: loop_guard_def loop_body_def Let_def split: option.splits)

declare while_loop.simps [simp del]

definition getColumnWidth :: "hook \<Rightarrow> int \<Rightarrow> real" where
  "getColumnWidth st cidx =
     snd (while_loop st cidx (visibleRows st) (rowStartIndex (viewport st), minColumnWidth st))"

section \<open>The viewport change coordinator\<close>

text \<open>
  The setter of \<^verbatim>\<open>useState\<close>: it writes the state cell. How React processes the
  update is not the hook's choice, so it is a parameter: with \<open>flush\<close> the call
  comes from outside React's batching and React re-renders before the setter
  returns, which first runs the pending effects of the first commit
  (\<^verbatim>\<open>isMounted.current = true\<close>); without it the update waits for a later render.
  The callback that is running keeps the constants it closed over either way.
\<close>

definition setViewport :: "bool \<Rightarrow> ViewPortProps \<Rightarrow> hook \<Rightarrow> hook" where
  "setViewport flush cells st =
     (let st' = st\<lparr>viewportState := cells\<rparr> in if flush then mount st' else st')"

text \<open>
  The invocation of \<^verbatim>\<open>debounceResizer.current\<close>: the pending deferred call is
  replaced and its timer restarted.
\<close>

definition schedule :: "CellInterface \<Rightarrow> hook \<Rightarrow> hook" where
  "schedule cell st =
     st\<lparr>debounceResizer := debounce_call (timeout st) (clock st) cell (debounceResizer st)\<rparr>"

text \<open>
  \<^verbatim>\<open>handleViewChange\<close>. The comparison of lines 116 and 117 reads the constant
  \<^verbatim>\<open>viewport\<close> that the callback closed over, not the state cell that line 110 has
  just written; the refs \<^verbatim>\<open>gridRef.current\<close> (line 120) and \<^verbatim>\<open>isMounted.current\<close>
  (line 122) are read after the setter, in the state it leaves.
\<close>

definition handleViewChange :: "bool \<Rightarrow> ViewPortProps \<Rightarrow> hook \<Rightarrow> hook" where
  "handleViewChange flush cells st =
     (let st' = setViewport flush cells st in
      if resizeStrategy st = full \<or> \<not> resizeOnScroll st \<or>
         (rowStartIndex cells = rowStartIndex (viewport st) \<and>
          columnStartIndex cells = columnStartIndex (viewport st))
      then st'
      else if gridRef_current st' then
        (if \<not> isMounted st' then st'
         else schedule \<lparr>rowIndex = rowStartIndex cells,
                        columnIndex = columnStartIndex cells\<rparr> st')
      else st')"

section \<open>Events\<close>

text \<open>
  Time passing: the clock advances, and a pending deferred call whose deadline is
  reached runs \<^verbatim>\<open>gridRef.current.resetAfterIndices\<close> at its deadline.
\<close>

definition elapse :: "nat \<Rightarrow> hook \<Rightarrow> hook" where
  "elapse d st =
     (case debounce_due (clock st + d) (debounceResizer st) of
        None \<Rightarrow> st\<lparr>clock := clock st + d\<rparr>
      | Some (deadline, cell) \<Rightarrow>
          st\<lparr>clock := clock st + d,
             debounceResizer := None,
             hostCalls := hostCalls st @
               [(deadline, if gridRef_current st then ResetAfterIndices cell else TypeError)]\<rparr>)"

text \<open>
  The object the hook returns, \<^verbatim>\<open>{columnWidth: getColumnWidth, onViewChange: handleViewChange}\<close>,
  as operations on the hook's state: each returns the state it leaves behind.
  \<^verbatim>\<open>getColumnWidth\<close> assigns only its locals \<^verbatim>\<open>start\<close> and \<^verbatim>\<open>maxWidth\<close>.
\<close>

definition columnWidth :: "int \<Rightarrow> hook \<Rightarrow> real \<times> hook" where
  "columnWidth cidx st = (getColumnWidth st cidx, st)"

definition onViewChange :: "bool \<Rightarrow> ViewPortProps \<Rightarrow> hook \<Rightarrow> hook" where
  "onViewChange flush cells st = handleViewChange flush cells st"

text \<open>
  What can happen to a hook: its effects run (\<open>Mount\<close>), React re-renders it
  (\<open>Render\<close>), the grid reports a viewport (\<open>ViewChange\<close>, with the way React
  processes the update) or asks for a width, time passes, the grid attaches or
  detaches.
\<close>

datatype event =
    Mount
  | Render
  | ViewChange bool ViewPortProps
  | ColumnWidth int
  | Elapse nat
  | GridRef bool

fun step :: "event \<Rightarrow> hook \<Rightarrow> hook" where
  "step Mount st = mount st"
| "step Render st = render st"
| "step (ViewChange flush cells) st = onViewChange flush cells st"
| "step (ColumnWidth cidx) st = snd (columnWidth cidx st)"
| "step (Elapse d) st = elapse d st"
| "step (GridRef b) st = st\<lparr>gridRef_current := b\<rparr>"

fun run :: "event list \<Rightarrow> hook \<Rightarrow> hook" where
  "run [] st = st"
| "run (e # es) st = run es (step e st)"

section \<open>The estimator and the coordinator in the spec's words\<close>

text \<open>
  Steps 3 and 4 of the spec's algorithm, for one row: no candidate for a value that
  is null or undefined (or that has no metrics), else
  \<open>ceil(metrics.width) + cellSpacingMargin\<close>.
\<close>

definition candidateWidth :: "hook \<Rightarrow> int \<Rightarrow> int \<Rightarrow> real option" where
  "candidateWidth st cidx row =
     (case getValue st \<lparr>rowIndex = row, columnIndex = cidx\<rparr> of
        Undefined \<Rightarrow> None
      | Null \<Rightarrow> None
      | Text txt \<Rightarrow>
          (case measureText (autoSizer st) txt of
             None \<Rightarrow> None
           | Some metrics \<Rightarrow> Some (of_int \<lceil>width metrics\<rceil> + cellSpacing st)))"

text \<open>The sampled rows: from \<^verbatim>\<open>rowStartIndex\<close> up to the bound, exclusive.\<close>

definition sampledRows :: "hook \<Rightarrow> int list" where
  "sampledRows st =
     (case visibleRows st of
        None \<Rightarrow> []
      | Some b \<Rightarrow> [rowStartIndex (viewport st)..b - 1])"

definition candidateWidths :: "hook \<Rightarrow> int \<Rightarrow> real list" where
  "candidateWidths st cidx = List.map_filter (candidateWidth st cidx) (sampledRows st)"

text \<open>What one pass of the loop body at a row does to the running maximum.\<close>

definition widen :: "hook \<Rightarrow> int \<Rightarrow> int \<Rightarrow> real \<Rightarrow> real" where
  "widen st cidx row m = snd (loop_body st cidx (row, m))"

text \<open>The bound of the spec's step 1, with the maximum it names.\<close>

definition spec_bound :: "hook \<Rightarrow> int option" where
  "spec_bound st =
     (if resizeStrategy st = full then rowCount st
      else Some (max (rowStopIndex (viewport st)) (initialVisibleRows st)))"

text \<open>
  A qualifying viewport change, one that no condition of the handler suppresses:
  lazy strategy, recalculation on scroll, a start index that differs from the
  viewport the callback closed over, and the grid attached and the hook mounted when
  the handler reads the two refs, after the setter.
\<close>

definition moved :: "ViewPortProps \<Rightarrow> ViewPortProps \<Rightarrow> bool" where
  "moved old cells =
     (\<not> (rowStartIndex cells = rowStartIndex old \<and>
         columnStartIndex cells = columnStartIndex old))"

definition qualifies :: "bool \<Rightarrow> ViewPortProps \<Rightarrow> hook \<Rightarrow> bool" where
  "qualifies flush cells st =
     (resizeStrategy st = lazy \<and> resizeOnScroll st \<and> moved (viewport st) cells \<and>
      gridRef_current (setViewport flush cells st) \<and> isMounted (setViewport flush cells st))"

definition origin :: "ViewPortProps \<Rightarrow> CellInterface" where
  "origin cells = \<lparr>rowIndex = rowStartIndex cells, columnIndex = columnStartIndex cells\<rparr>"

text \<open>
  A burst of notifications after a first one. Each comes \<open>d\<close> milliseconds after
  the one before it; \<open>r\<close> says whether React has re-rendered in between, so that
  the call goes to a callback with a fresh \<^verbatim>\<open>viewport\<close>, and \<open>flush\<close> how its
  setter is processed. \<open>non_suppressed\<close> says that each call of the burst
  qualifies in the state in which it is made, \<open>all_within\<close> that each gap is
  shorter than the delay.
\<close>

type_synonym notification = "nat \<times> bool \<times> bool \<times> ViewPortProps"

fun before_call :: "nat \<Rightarrow> bool \<Rightarrow> hook \<Rightarrow> hook" where
  "before_call d r st = (if r then render (elapse d st) else elapse d st)"

fun burst :: "notification list \<Rightarrow> event list" where
  "burst [] = []"
| "burst ((d, r, flush, cells) # rest) =
     (if r then [Elapse d, Render, ViewChange flush cells]
      else [Elapse d, ViewChange flush cells]) @ burst rest"

fun non_suppressed :: "hook \<Rightarrow> notification list \<Rightarrow> bool" where
  "non_suppressed st [] = True"
| "non_suppressed st ((d, r, flush, cells) # rest) =
     (qualifies flush cells (before_call d r st) \<and>
      non_suppressed (onViewChange flush cells (before_call d r st)) rest)"

fun all_within :: "nat \<Rightarrow> notification list \<Rightarrow> bool" where
  "all_within wait [] = True"
| "all_within wait ((d, r, flush, cells) # rest) = (d < wait \<and> all_within wait rest)"

fun last_cells :: "ViewPortProps \<Rightarrow> notification list \<Rightarrow> ViewPortProps" where
  "last_cells cells [] = cells"
| "last_cells cells ((d, r, flush, cells') # rest) = last_cells cells' rest"

text \<open>
  The state after a qualifying call: the deferred call for \<open>cells\<close> is pending,
  due one delay from now, and the grid is attached.
\<close>

definition armed :: "ViewPortProps \<Rightarrow> hook \<Rightarrow> bool" where
  "armed cells st =
     (debounceResizer st = Some (clock st + timeout st, origin cells) \<and> gridRef_current st)"

section \<open>Example instances\<close>

definition ex_doc :: document where
  "ex_doc =
     \<lparr>getContext2d = True,
      engine_measure =
        (\<lambda>f txt. if txt = ''id'' then 23 / 2 else if txt = ''description'' then 221 / 5 else 8)\<rparr>"

definition ex_getValue :: "CellInterface \<Rightarrow> js_value" where
  "ex_getValue cell =
     (if columnIndex cell = 0 then
        (if rowIndex cell = 0 then Text ''id''
         else if rowIndex cell = 1 then Null
         else if rowIndex cell = 2 then Text ''description''
         else if rowIndex cell = 3 then Undefined
         else Text ''x'')
      else Null)"

definition ex_props :: IProps where
  "ex_props =
     \<lparr>prop_gridRef = True, prop_getValue = ex_getValue, prop_initialVisibleRows = Some 5,
      prop_minColumnWidth = Some 20, prop_cellSpacing = None, prop_timeout = None,
      prop_resizeOnScroll = None, prop_font = None, prop_resizeStrategy = None,
      prop_rowCount = None\<rparr>"

text \<open>The hook that \<open>useAutoSizer ex_doc ex_props\<close> constructs.\<close>

definition ex_hook :: hook where
  "ex_hook =
     \<lparr>getValue = ex_getValue, initialVisibleRows = 5, cellSpacing = 10, minColumnWidth = 20,
      timeout = 300, resizeStrategy = lazy, rowCount = None, resizeOnScroll = True,
      font = ''12px Arial'', gridRef_current = True,
      autoSizer = AutoSizerCanvas ex_doc ''12px Arial'',
      viewport = \<lparr>rowStartIndex = 0, rowStopIndex = 0,
                  columnStartIndex = 0, columnStopIndex = 0\<rparr>,
      viewportState = \<lparr>rowStartIndex = 0, rowStopIndex = 0,
                       columnStartIndex = 0, columnStopIndex = 0\<rparr>,
      isMounted = False, debounceResizer = None, clock = 0, hostCalls = []\<rparr>"

definition ex_cells :: "int \<Rightarrow> int \<Rightarrow> ViewPortProps" where
  "ex_cells r0 r1 =
     \<lparr>rowStartIndex = r0, rowStopIndex = r1, columnStartIndex = 0, columnStopIndex = 4\<rparr>"

text \<open>The same hook on a document whose canvas has no 2d context.\<close>

definition ex_blind :: hook where
  "ex_blind = ex_hook\<lparr>autoSizer := AutoSizerCanvas (ex_doc\<lparr>getContext2d := False\<rparr>) ''12px Arial''\<rparr>"

text \<open>
  The example hook after the grid reported rows 0 to 2 as visible and React
  re-rendered.
\<close>

definition ex_scrolled :: hook where
  "ex_scrolled = render (onViewChange False (ex_cells 0 2) ex_hook)"

text \<open>
  A hook that differs from \<open>ex_hook\<close> in its mounted flag, its pending deferred
  call and the values of rows that are not sampled.
\<close>

definition ex_other :: hook where
  "ex_other =
     ex_hook\<lparr>getValue := (\<lambda>cell. if 5 \<le> rowIndex cell then Text ''description''
                                else ex_getValue cell),
             isMounted := True,
             debounceResizer := Some (300, \<lparr>rowIndex = 1, columnIndex = 0\<rparr>)\<rparr>"


text \<open>The example hook after its first commit.\<close>

definition ex_mounted :: hook where
  "ex_mounted = mount ex_hook"

text \<open>
  Two notifications that follow a first one, 100 and 299 milliseconds apart: the
  first after a re-render, the second to the same callback, with a setter that
  re-renders at once.
\<close>

definition ex_rest :: "notification list" where
  "ex_rest = [(100, True, False, ex_cells 2 7), (299, False, True, ex_cells 3 8)]"

section \<open>The sampling loop\<close>

text \<open>
  The loop advances \<^verbatim>\<open>start\<close> by one in each pass, runs the body once for each row
  from \<^verbatim>\<open>start\<close> up to the bound, and leaves in \<^verbatim>\<open>maxWidth\<close> the largest of its
  initial value and the candidate widths of these rows.
\<close>

lemma loop_body_fst: "fst (loop_body st cidx s) = fst s + 1"
  by (simp add: loop_body_def Let_def)

lemma loop_body_snd:
  "snd (loop_body st cidx (row, m)) =
     (case candidateWidth st cidx row of None \<Rightarrow> m | Some w \<Rightarrow> max m w)"
  by (simp add: loop_body_def candidateWidth_def nullish_null_def Let_def max_def
      split: js_value.splits option.splits)

lemma loop_body_pair: "loop_body st cidx (row, m) = (row + 1, widen st cidx row m)"
  by (simp add: prod_eq_iff loop_body_fst widen_def)

lemma while_loop_None: "while_loop st cidx None s = s"
  by (simp add: while_loop.simps loop_guard_def)

lemma while_loop_exit: "b \<le> fst s \<Longrightarrow> while_loop st cidx (Some b) s = s"
  by (simp add: while_loop.simps loop_guard_def)

lemma while_loop_iter:
  "fst s < b \<Longrightarrow> while_loop st cidx (Some b) s = while_loop st cidx (Some b) (loop_body st cidx s)"
  by (subst while_loop.simps) (simp add: loop_guard_def)

lemma funpow_fst: "fst ((loop_body st cidx ^^ k) s) = fst s + int k"
  by (induction k) (simp_all add: loop_body_fst)

lemma while_loop_funpow:
  "while_loop st cidx (Some b) s = (loop_body st cidx ^^ nat (b - fst s)) s"
proof (induction "nat (b - fst s)" arbitrary: s)
  case 0
  then show ?case by (simp add: while_loop_exit)
next
  case (Suc n)
  then have lt: "fst s < b" by linarith
  have "n = nat (b - fst (loop_body st cidx s))"
    using Suc.hyps(2) by (simp add: loop_body_fst)
  then have "while_loop st cidx (Some b) (loop_body st cidx s)
      = (loop_body st cidx ^^ n) (loop_body st cidx s)"
    using Suc.hyps(1) by simp
  then show ?case
    using lt Suc.hyps(2) [symmetric] by (simp add: while_loop_iter funpow_swap1)
qed

lemma while_loop_fold:
  "while_loop st cidx (Some b) (i, m) = (max i b, fold (widen st cidx) [i..b - 1] m)"
proof (induction "nat (b - i)" arbitrary: i m)
  case 0
  then show ?case by (simp add: while_loop_exit)
next
  case (Suc n)
  then have lt: "i < b" by linarith
  have n: "n = nat (b - (i + 1))" using Suc.hyps(2) by simp
  have up: "[i..b - 1] = i # [i + 1..b - 1]" using lt by (simp add: upto_rec1)
  show ?case
    using lt Suc.hyps(1) [OF n] by (simp add: while_loop_iter loop_body_pair up)
qed

lemma fold_widen:
  "fold (widen st cidx) rows m = Max (set (m # List.map_filter (candidateWidth st cidx) rows))"
proof (induction rows arbitrary: m)
  case Nil
  then show ?case by (simp add: List.map_filter_simps)
next
  case (Cons r rows)
  show ?case
  proof (cases "candidateWidth st cidx r")
    case None
    then show ?thesis using Cons by (simp add: List.map_filter_simps widen_def loop_body_snd)
  next
    case (Some w)
    have "Max (insert m (insert w (set (List.map_filter (candidateWidth st cidx) rows))))
        = Max (insert (max m w) (set (List.map_filter (candidateWidth st cidx) rows)))"
      by (cases "set (List.map_filter (candidateWidth st cidx) rows) = {}")
         (simp_all add: max.assoc insert_commute)
    then show ?thesis using Cons Some
      by (simp add: List.map_filter_simps widen_def loop_body_snd)
  qed
qed

lemma getColumnWidth_fold:
  "getColumnWidth st cidx = fold (widen st cidx) (sampledRows st) (minColumnWidth st)"
  by (cases "visibleRows st")
     (simp_all add: getColumnWidth_def sampledRows_def while_loop_None while_loop_fold)

lemma getColumnWidth_Max:
  "getColumnWidth st cidx = Max (set (minColumnWidth st # candidateWidths st cidx))"
  by (simp add: getColumnWidth_fold fold_widen candidateWidths_def)

lemma map_filter_cong_set:
  "(\<And>x. x \<in> set xs \<Longrightarrow> f x = g x) \<Longrightarrow> List.map_filter f xs = List.map_filter g xs"
  by (induction xs) (auto simp: List.map_filter_simps split: option.splits)

lemma candidateWidths_cong:
  assumes "sampledRows st1 = sampledRows st2"
    and "\<And>row. row \<in> set (sampledRows st1) \<Longrightarrow> candidateWidth st1 cidx row = candidateWidth st2 cidx row"
  shows "candidateWidths st1 cidx = candidateWidths st2 cidx"
  unfolding candidateWidths_def assms(1) [symmetric]
  by (rule map_filter_cong_set) (rule assms(2))

section \<open>The example instances, evaluated\<close>

lemma ex_hook_fields:
  "getValue ex_hook = ex_getValue" "initialVisibleRows ex_hook = 5" "cellSpacing ex_hook = 10"
  "minColumnWidth ex_hook = 20" "timeout ex_hook = 300" "resizeStrategy ex_hook = lazy"
  "rowCount ex_hook = None" "resizeOnScroll ex_hook" "gridRef_current ex_hook"
  "autoSizer ex_hook = AutoSizerCanvas ex_doc ''12px Arial''"
  "viewport ex_hook = \<lparr>rowStartIndex = 0, rowStopIndex = 0, columnStartIndex = 0, columnStopIndex = 0\<rparr>"
  "viewportState ex_hook = \<lparr>rowStartIndex = 0, rowStopIndex = 0, columnStartIndex = 0, columnStopIndex = 0\<rparr>"
  "font ex_hook = ''12px Arial''"
  "\<not> isMounted ex_hook" "debounceResizer ex_hook = None" "clock ex_hook = 0" "hostCalls ex_hook = []"
  by (simp_all add: ex_hook_def)

lemma ex_measure:
  "measureText (AutoSizerCanvas ex_doc f) txt =
     Some \<lparr>width = (if txt = ''id'' then 23 / 2 else if txt = ''description'' then 221 / 5 else 8)\<rparr>"
  by (simp add: AutoSizerCanvas_def setFont_def measureText_def ex_doc_def)

lemma ex_setFont:
  "setFont ''12px Arial'' (AutoSizerCanvas ex_doc ''12px Arial'') =
     AutoSizerCanvas ex_doc ''12px Arial''"
  by (simp add: AutoSizerCanvas_def setFont_def)

lemma ex_construct: "useAutoSizer ex_doc ex_props = Inr ex_hook"
  by (simp add: useAutoSizer_def ex_props_def ex_hook_def invariant_def debounce_def Let_def)

lemma ex_sampled: "sampledRows ex_hook = [0, 1, 2, 3, 4]"
  by (simp add: sampledRows_def visibleRows_def ex_hook_fields upto_rec1)

lemma ex_candidate:
  "candidateWidth ex_hook 0 0 = Some 22" "candidateWidth ex_hook 0 1 = None"
  "candidateWidth ex_hook 0 2 = Some 55" "candidateWidth ex_hook 0 3 = None"
  "candidateWidth ex_hook 0 4 = Some 18"
  by (simp_all add: candidateWidth_def ex_hook_fields ex_measure ex_getValue_def)

lemma ex_candidates: "candidateWidths ex_hook 0 = [22, 55, 18]"
  by (simp add: candidateWidths_def ex_sampled ex_candidate List.map_filter_simps)

lemma ex_width: "getColumnWidth ex_hook 0 = 55"
  by (simp add: getColumnWidth_Max ex_candidates ex_hook_fields)

lemma map_filter_all_None:
  "(\<And>x. x \<in> set xs \<Longrightarrow> f x = None) \<Longrightarrow> List.map_filter f xs = []"
  by (induction xs) (simp_all add: List.map_filter_simps)

lemma candidateWidth_nullish:
  "getValue st \<lparr>rowIndex = row, columnIndex = cidx\<rparr> \<in> {Undefined, Null} \<Longrightarrow>
   candidateWidth st cidx row = None"
  by (auto simp: candidateWidth_def)

section \<open>The width estimator: claims\<close>

text \<open>
  C1. For every column index (so for every non-negative one), \<open>columnWidth\<close>
  returns the maximum of \<open>minimumColumnWidth\<close> and, over every sampled row whose
  value is not null or undefined and has metrics, \<open>ceil(metrics.width) + cellSpacingMargin\<close>.
  So the result is never below \<open>minimumColumnWidth\<close>, and when no sampled value
  is non-null (all are null or undefined, or the range is empty) it is exactly
  \<open>minimumColumnWidth\<close>.
\<close>

theorem getColumnWidth_max_of_candidates:
  "getColumnWidth st cidx = Max (set (minColumnWidth st # candidateWidths st cidx)) \<and>
   minColumnWidth st \<le> getColumnWidth st cidx \<and>
   ((\<forall>row \<in> set (sampledRows st).
       getValue st \<lparr>rowIndex = row, columnIndex = cidx\<rparr> \<in> {Undefined, Null}) \<longrightarrow>
    getColumnWidth st cidx = minColumnWidth st)"
proof (intro conjI impI)
  show eq: "getColumnWidth st cidx = Max (set (minColumnWidth st # candidateWidths st cidx))"
    by (rule getColumnWidth_Max)
  show "minColumnWidth st \<le> getColumnWidth st cidx"
    unfolding eq by (rule Max_ge) simp_all
  assume "\<forall>row \<in> set (sampledRows st).
       getValue st \<lparr>rowIndex = row, columnIndex = cidx\<rparr> \<in> {Undefined, Null}"
  then have "candidateWidths st cidx = []"
    unfolding candidateWidths_def
    by (intro map_filter_all_None candidateWidth_nullish) blast
  then show "getColumnWidth st cidx = minColumnWidth st"
    by (simp add: eq)
qed

theorem getColumnWidth_max_of_candidates_witness:
  "getColumnWidth ex_hook 0 = Max (set [20, 22, 55, 18]) \<and> getColumnWidth ex_hook 0 = 55 \<and>
   minColumnWidth ex_hook \<le> getColumnWidth ex_hook 0 \<and> getColumnWidth ex_hook 1 = 20"
  using getColumnWidth_max_of_candidates [of ex_hook 0]
    getColumnWidth_max_of_candidates [of ex_hook 1]
  by (simp add: ex_candidates ex_sampled ex_hook_fields ex_getValue_def)


lemma ex_scrolled_fields:
  "getValue ex_scrolled = ex_getValue" "initialVisibleRows ex_scrolled = 5"
  "cellSpacing ex_scrolled = 10" "minColumnWidth ex_scrolled = 20"
  "resizeStrategy ex_scrolled = lazy"
  "autoSizer ex_scrolled = AutoSizerCanvas ex_doc ''12px Arial''"
  "viewport ex_scrolled = ex_cells 0 2"
  by (simp_all add: ex_scrolled_def render_def mount_def onViewChange_def handleViewChange_def
      setViewport_def schedule_def ex_hook_fields ex_setFont Let_def)

lemma ex_scrolled_sampled: "sampledRows ex_scrolled = [0, 1]"
  by (simp add: sampledRows_def visibleRows_def ex_scrolled_fields ex_cells_def upto_rec1)

lemma ex_scrolled_candidate:
  "candidateWidth ex_scrolled 0 0 = Some 22" "candidateWidth ex_scrolled 0 1 = None"
  "candidateWidth ex_scrolled 0 2 = Some 55"
  by (simp_all add: candidateWidth_def ex_scrolled_fields ex_measure ex_getValue_def)

lemma ex_bounds:
  "visibleRows ex_scrolled = Some 2" "spec_bound ex_scrolled = Some 5"
  "visibleRows ex_hook = Some 5" "spec_bound ex_hook = Some 5"
  by (simp_all add: visibleRows_def spec_bound_def ex_scrolled_fields ex_hook_fields ex_cells_def)

text \<open>
  C2, as stated, fails. After the grid reported rows 0 to 2 as visible, with
  \<open>initialVisibleRowSampleCount = 5\<close> and the lazy strategy, the loop's bound is
  \<open>rowStopIndex = 2\<close> and not \<open>max(2, 5) = 5\<close>: the width of column 0 is 22, the
  candidate of row 0, although row 2, below the bound the claim names, has the
  candidate 55.
\<close>

theorem sampling_bound_is_not_max:
  "resizeStrategy ex_scrolled \<noteq> full \<and>
   visibleRows ex_scrolled = Some 2 \<and> spec_bound ex_scrolled = Some 5 \<and>
   visibleRows ex_scrolled \<noteq> spec_bound ex_scrolled \<and>
   getColumnWidth ex_scrolled 0 = 22 \<and> candidateWidth ex_scrolled 0 2 = Some 55"
  by (simp add: ex_bounds ex_scrolled_fields
      getColumnWidth_Max candidateWidths_def ex_scrolled_sampled ex_scrolled_candidate
      List.map_filter_simps)

text \<open>
  C2, amended. With a strategy other than full, the exclusive bound is
  \<open>viewport.rowStopIndex\<close> when that is not 0 and \<open>initialVisibleRowSampleCount\<close>
  when it is 0 (\<^verbatim>\<open>rowStopIndex || initialVisibleRows\<close>); with the full strategy it is
  \<open>totalRowCount\<close>. In both cases the loop body runs on the rows from
  \<open>viewport.rowStartIndex\<close> up to the bound, exclusive, in order. The bound is the
  maximum the claim names when \<open>rowStopIndex\<close> is 0 and the sample count is not
  negative, or \<open>rowStopIndex\<close> is not 0 and at least the sample count.
\<close>

theorem sampling_bound_amended:
  "visibleRows st =
     (if resizeStrategy st = full then rowCount st
      else if rowStopIndex (viewport st) = 0 then Some (initialVisibleRows st)
      else Some (rowStopIndex (viewport st))) \<and>
   getColumnWidth st cidx =
     fold (widen st cidx)
       (case visibleRows st of None \<Rightarrow> [] | Some b \<Rightarrow> [rowStartIndex (viewport st)..b - 1])
       (minColumnWidth st) \<and>
   (resizeStrategy st \<noteq> full \<longrightarrow>
    (if rowStopIndex (viewport st) = 0 then 0 \<le> initialVisibleRows st
     else initialVisibleRows st \<le> rowStopIndex (viewport st)) \<longrightarrow>
    visibleRows st = spec_bound st)"
proof (intro conjI impI)
  show "visibleRows st =
     (if resizeStrategy st = full then rowCount st
      else if rowStopIndex (viewport st) = 0 then Some (initialVisibleRows st)
      else Some (rowStopIndex (viewport st)))"
    by (simp add: visibleRows_def)
  show "getColumnWidth st cidx =
     fold (widen st cidx)
       (case visibleRows st of None \<Rightarrow> [] | Some b \<Rightarrow> [rowStartIndex (viewport st)..b - 1])
       (minColumnWidth st)"
    using getColumnWidth_fold [of st cidx] by (simp add: sampledRows_def)
  assume "resizeStrategy st \<noteq> full"
    and "if rowStopIndex (viewport st) = 0 then 0 \<le> initialVisibleRows st
     else initialVisibleRows st \<le> rowStopIndex (viewport st)"
  then show "visibleRows st = spec_bound st"
    by (simp add: visibleRows_def spec_bound_def max_def split: if_splits)
qed

theorem sampling_bound_amended_witness:
  "visibleRows ex_scrolled = Some 2 \<and>
   getColumnWidth ex_scrolled 0 = fold (widen ex_scrolled 0) [0, 1] 20 \<and>
   visibleRows ex_hook = Some 5 \<and> visibleRows ex_hook = spec_bound ex_hook"
  using sampling_bound_amended [of ex_scrolled 0] sampling_bound_amended [of ex_hook 0]
  by (simp add: ex_bounds ex_scrolled_fields ex_hook_fields ex_cells_def upto_rec1)

lemma nat_max0: "nat (max 0 x) = nat x"
  by (simp add: max_def)

text \<open>
  C10. The row-sampling loop of \<open>columnWidth\<close> terminates for every cached
  viewport and configuration (\<open>while_loop\<close> is a total function), also when
  \<open>rowStartIndex\<close> is at or beyond the bound: it is the body iterated exactly
  \<open>max(0, bound - rowStartIndex)\<close> times (no times for a bound that is undefined),
  the guard holds before each of these passes and fails after the last, and the row
  index grows by one with each pass.
\<close>

theorem sampling_loop_iterations:
  "let s0 = (rowStartIndex (viewport st), minColumnWidth st);
       n = (case visibleRows st of
              None \<Rightarrow> 0
            | Some bound \<Rightarrow> nat (max 0 (bound - rowStartIndex (viewport st))))
   in while_loop st cidx (visibleRows st) s0 = (loop_body st cidx ^^ n) s0 \<and>
      getColumnWidth st cidx = snd ((loop_body st cidx ^^ n) s0) \<and>
      (\<forall>k<n. loop_guard (visibleRows st) ((loop_body st cidx ^^ k) s0)) \<and>
      \<not> loop_guard (visibleRows st) ((loop_body st cidx ^^ n) s0) \<and>
      (\<forall>k. fst ((loop_body st cidx ^^ k) s0) = rowStartIndex (viewport st) + int k)"
proof (cases "visibleRows st")
  case None
  then show ?thesis
    by (simp add: Let_def while_loop_None getColumnWidth_def loop_guard_def funpow_fst)
next
  case (Some b)
  then show ?thesis
    by (simp add: Let_def while_loop_funpow getColumnWidth_def loop_guard_def funpow_fst
        nat_max0) linarith
qed

lemma ex_empty_range:
  "visibleRows (ex_hook\<lparr>viewport := ex_cells 7 7\<rparr>) = Some 7"
  "rowStartIndex (viewport (ex_hook\<lparr>viewport := ex_cells 7 7\<rparr>)) = 7"
  by (simp_all add: visibleRows_def ex_hook_fields ex_cells_def)

theorem sampling_loop_iterations_witness:
  "while_loop ex_hook 0 (Some 5) (0, 20) = (loop_body ex_hook 0 ^^ 5) (0, 20) \<and>
   loop_guard (Some 5) ((loop_body ex_hook 0 ^^ 4) (0, 20)) \<and>
   \<not> loop_guard (Some 5) ((loop_body ex_hook 0 ^^ 5) (0, 20)) \<and>
   while_loop (ex_hook\<lparr>viewport := ex_cells 7 7\<rparr>) 0 (Some 7) (7, 20) = (7, 20)"
proof -
  from sampling_loop_iterations [of ex_hook 0]
  have run: "while_loop ex_hook 0 (Some 5) (0, 20) = (loop_body ex_hook 0 ^^ 5) (0, 20)"
    and before: "\<forall>k<5. loop_guard (Some 5) ((loop_body ex_hook 0 ^^ k) (0, 20))"
    and after: "\<not> loop_guard (Some 5) ((loop_body ex_hook 0 ^^ 5) (0, 20))"
    by (simp_all add: Let_def ex_bounds ex_hook_fields)
  from before have fifth: "loop_guard (Some 5) ((loop_body ex_hook 0 ^^ 4) (0, 20))"
    by (rule allE [of _ 4]) simp
  from sampling_loop_iterations [of "ex_hook\<lparr>viewport := ex_cells 7 7\<rparr>" 0]
  have none: "while_loop (ex_hook\<lparr>viewport := ex_cells 7 7\<rparr>) 0 (Some 7) (7, 20) = (7, 20)"
    using ex_empty_range by (simp add: Let_def ex_hook_fields)
  from run fifth after none show ?thesis by blast
qed


lemma measureText_None_iff: "measureText c txt = None \<longleftrightarrow> ctx c = None"
  by (simp add: measureText_def split: option.splits)

lemma candidateWidth_blind: "ctx (autoSizer st) = None \<Longrightarrow> candidateWidth st cidx row = None"
  by (simp add: candidateWidth_def measureText_def split: js_value.splits)

lemma getColumnWidth_blind:
  assumes "ctx (autoSizer st) = None"
  shows "getColumnWidth st cidx = minColumnWidth st"
proof -
  have "candidateWidths st cidx = []"
    unfolding candidateWidths_def
    by (rule map_filter_all_None) (rule candidateWidth_blind [OF assms])
  then show ?thesis by (simp add: getColumnWidth_Max)
qed

lemma ex_blind_fields:
  "getValue ex_blind = ex_getValue" "minColumnWidth ex_blind = 20"
  "ctx (autoSizer ex_blind) = None"
  by (simp_all add: ex_blind_def ex_hook_fields AutoSizerCanvas_def setFont_def)

lemma sampledRows_cong:
  assumes "viewport st1 = viewport st2" "initialVisibleRows st1 = initialVisibleRows st2"
    "resizeStrategy st1 = resizeStrategy st2" "rowCount st1 = rowCount st2"
  shows "sampledRows st1 = sampledRows st2"
  using assms by (simp add: sampledRows_def visibleRows_def cong: option.case_cong)

lemma candidateWidth_cong:
  assumes "getValue st1 \<lparr>rowIndex = row, columnIndex = cidx\<rparr> =
      getValue st2 \<lparr>rowIndex = row, columnIndex = cidx\<rparr>"
    and "autoSizer st1 = autoSizer st2" and "cellSpacing st1 = cellSpacing st2"
  shows "candidateWidth st1 cidx row = candidateWidth st2 cidx row"
  using assms by (simp add: candidateWidth_def split: js_value.splits option.splits)

text \<open>
  C8. When the measurement provider returns no metrics for a sampled value that is
  not null, the loop body leaves \<^verbatim>\<open>maxWidth\<close> as it is and moves to the next row,
  exactly as for a null value at that row, and the width of the column is the width
  with that value replaced by null. No error is raised: \<open>getColumnWidth\<close> returns a
  number. In the source the provider has no metrics only when the canvas has no 2d
  context, and then no value has metrics and the width is \<open>minimumColumnWidth\<close>.
\<close>

theorem unmeasurable_value_skipped:
  assumes "getValue st \<lparr>rowIndex = row, columnIndex = cidx\<rparr> = Text txt"
    and "measureText (autoSizer st) txt = None"
  shows "loop_body st cidx (row, m) = (row + 1, m) \<and>
    loop_body (st\<lparr>getValue := (getValue st)(\<lparr>rowIndex = row, columnIndex = cidx\<rparr> := Null)\<rparr>)
      cidx (row, m) = (row + 1, m) \<and>
    getColumnWidth st cidx =
      getColumnWidth
        (st\<lparr>getValue := (getValue st)(\<lparr>rowIndex = row, columnIndex = cidx\<rparr> := Null)\<rparr>) cidx \<and>
    getColumnWidth st cidx = minColumnWidth st"
proof -
  let ?st' = "st\<lparr>getValue := (getValue st)(\<lparr>rowIndex = row, columnIndex = cidx\<rparr> := Null)\<rparr>"
  have blind: "ctx (autoSizer st) = None"
    using assms(2) by (simp add: measureText_None_iff)
  have skipped: "loop_body st cidx (row, m) = (row + 1, m)"
    using assms by (simp add: loop_body_def Let_def nullish_null_def)
  have as_null: "loop_body ?st' cidx (row, m) = (row + 1, m)"
    by (simp add: loop_body_def Let_def nullish_null_def)
  have rows: "sampledRows st = sampledRows ?st'"
    by (rule sampledRows_cong) simp_all
  have "candidateWidth st cidx r = candidateWidth ?st' cidx r" for r
  proof (cases "r = row")
    case True
    then show ?thesis using assms by (simp add: candidateWidth_def)
  next
    case False
    then show ?thesis by (intro candidateWidth_cong) simp_all
  qed
  then have "candidateWidths st cidx = candidateWidths ?st' cidx"
    using rows by (intro candidateWidths_cong) simp_all
  then have same: "getColumnWidth st cidx = getColumnWidth ?st' cidx"
    by (simp add: getColumnWidth_Max)
  from skipped as_null same getColumnWidth_blind [OF blind] show ?thesis by blast
qed

theorem unmeasurable_value_skipped_witness:
  "getValue ex_blind \<lparr>rowIndex = 0, columnIndex = 0\<rparr> = Text ''id'' \<and>
   measureText (autoSizer ex_blind) ''id'' = None \<and>
   loop_body ex_blind 0 (0, 20) = (1, 20) \<and>
   getColumnWidth ex_blind 0 = 20"
proof -
  have v: "getValue ex_blind \<lparr>rowIndex = 0, columnIndex = 0\<rparr> = Text ''id''"
    by (simp add: ex_blind_fields ex_getValue_def)
  have m: "measureText (autoSizer ex_blind) ''id'' = None"
    by (simp add: measureText_None_iff ex_blind_fields)
  from unmeasurable_value_skipped [OF v m, of 20] v m show ?thesis
    by (simp add: ex_blind_fields)
qed


text \<open>
  C9. \<open>columnWidth\<close> is deterministic and free of side effects: two calls with the
  same column index, on states with the same cached viewport, the same configuration
  (sample count, minimum width, spacing, strategy, row count), the same measurement
  provider (font and surface) and the same values at the sampled rows, return equal
  widths, whatever else differs; and a call leaves the state as it was, so the cached
  viewport, the mounted flag, the pending deferred call and the log of host calls
  are not modified.
\<close>

theorem columnWidth_deterministic:
  assumes "viewport st1 = viewport st2"
    and "initialVisibleRows st1 = initialVisibleRows st2"
    and "minColumnWidth st1 = minColumnWidth st2"
    and "cellSpacing st1 = cellSpacing st2"
    and "resizeStrategy st1 = resizeStrategy st2"
    and "rowCount st1 = rowCount st2"
    and "autoSizer st1 = autoSizer st2"
    and "\<forall>row \<in> set (sampledRows st1).
           getValue st1 \<lparr>rowIndex = row, columnIndex = cidx\<rparr> =
           getValue st2 \<lparr>rowIndex = row, columnIndex = cidx\<rparr>"
  shows "fst (columnWidth cidx st1) = fst (columnWidth cidx st2) \<and>
    snd (columnWidth cidx st1) = st1 \<and>
    viewport (step (ColumnWidth cidx) st1) = viewport st1 \<and>
    isMounted (step (ColumnWidth cidx) st1) = isMounted st1 \<and>
    debounceResizer (step (ColumnWidth cidx) st1) = debounceResizer st1 \<and>
    hostCalls (step (ColumnWidth cidx) st1) = hostCalls st1"
proof -
  have rows: "sampledRows st1 = sampledRows st2"
    by (rule sampledRows_cong [OF assms(1,2,5,6)])
  have "candidateWidth st1 cidx row = candidateWidth st2 cidx row"
    if "row \<in> set (sampledRows st1)" for row
    using that assms(4,7,8) by (intro candidateWidth_cong) simp_all
  with rows have "candidateWidths st1 cidx = candidateWidths st2 cidx"
    by (intro candidateWidths_cong) simp_all
  then have "getColumnWidth st1 cidx = getColumnWidth st2 cidx"
    using assms(3) by (simp add: getColumnWidth_Max)
  then show ?thesis by (simp add: columnWidth_def)
qed

lemma ex_other_fields:
  "viewport ex_other = viewport ex_hook" "initialVisibleRows ex_other = initialVisibleRows ex_hook"
  "minColumnWidth ex_other = minColumnWidth ex_hook" "cellSpacing ex_other = cellSpacing ex_hook"
  "resizeStrategy ex_other = resizeStrategy ex_hook" "rowCount ex_other = rowCount ex_hook"
  "autoSizer ex_other = autoSizer ex_hook"
  "getValue ex_other = (\<lambda>cell. if 5 \<le> rowIndex cell then Text ''description'' else ex_getValue cell)"
  "isMounted ex_other" "debounceResizer ex_other = Some (300, \<lparr>rowIndex = 1, columnIndex = 0\<rparr>)"
  by (simp_all add: ex_other_def)

theorem columnWidth_deterministic_witness:
  "fst (columnWidth 0 ex_hook) = fst (columnWidth 0 ex_other) \<and>
   fst (columnWidth 0 ex_other) = 55 \<and>
   getValue ex_hook \<lparr>rowIndex = 5, columnIndex = 0\<rparr> \<noteq> getValue ex_other \<lparr>rowIndex = 5, columnIndex = 0\<rparr> \<and>
   isMounted ex_hook \<noteq> isMounted ex_other \<and>
   debounceResizer ex_hook \<noteq> debounceResizer ex_other \<and>
   snd (columnWidth 0 ex_hook) = ex_hook"
proof -
  have same: "\<forall>row \<in> set (sampledRows ex_hook).
      getValue ex_hook \<lparr>rowIndex = row, columnIndex = 0\<rparr> =
      getValue ex_other \<lparr>rowIndex = row, columnIndex = 0\<rparr>"
    by (simp add: ex_sampled ex_other_fields ex_hook_fields)
  from columnWidth_deterministic
    [OF ex_other_fields(1-7) [symmetric] same]
  have "fst (columnWidth 0 ex_hook) = fst (columnWidth 0 ex_other)"
    and "snd (columnWidth 0 ex_hook) = ex_hook"
    by simp_all
  moreover have "fst (columnWidth 0 ex_hook) = 55"
    by (simp add: columnWidth_def ex_width)
  moreover have "getValue ex_hook \<lparr>rowIndex = 5, columnIndex = 0\<rparr> \<noteq>
      getValue ex_other \<lparr>rowIndex = 5, columnIndex = 0\<rparr>"
    by (simp add: ex_other_fields ex_hook_fields ex_getValue_def)
  ultimately show ?thesis
    by (simp add: ex_other_fields ex_hook_fields)
qed


section \<open>Construction: claims\<close>

text \<open>
  C5. Construction fails, with the error of the \<^verbatim>\<open>invariant\<close> at the start of the hook,
  if and only if \<open>resizeStrategy = full\<close> and \<open>totalRowCount\<close> is undefined; for every
  other combination of options it succeeds. A constructed hook never meets an
  undefined bound later: its \<open>visibleRows\<close> is always defined. The document is taken
  to exist, with or without a 2d context for its canvas.
\<close>

theorem construction_fails_iff:
  "((\<exists>e. useAutoSizer doc p = Inl e) \<longleftrightarrow>
      (prop_resizeStrategy p = Some full \<and> prop_rowCount p = None)) \<and>
   ((\<exists>st. useAutoSizer doc p = Inr st) \<longleftrightarrow>
      \<not> (prop_resizeStrategy p = Some full \<and> prop_rowCount p = None)) \<and>
   (\<forall>st. useAutoSizer doc p = Inr st \<longrightarrow> visibleRows st \<noteq> None)"
  by (cases "prop_resizeStrategy p"; cases "prop_rowCount p")
     (auto simp: useAutoSizer_def invariant_def Let_def visibleRows_def)

theorem construction_fails_iff_witness:
  "(\<exists>e. useAutoSizer ex_doc (ex_props\<lparr>prop_resizeStrategy := Some full\<rparr>) = Inl e) \<and>
   (\<exists>st. useAutoSizer ex_doc (ex_props\<lparr>prop_resizeStrategy := Some full,
                                          prop_rowCount := Some 100\<rparr>) = Inr st) \<and>
   (\<exists>st. useAutoSizer ex_doc ex_props = Inr st) \<and>
   visibleRows ex_hook \<noteq> None"
  using construction_fails_iff [of ex_doc "ex_props\<lparr>prop_resizeStrategy := Some full\<rparr>"]
    construction_fails_iff
      [of ex_doc "ex_props\<lparr>prop_resizeStrategy := Some full, prop_rowCount := Some 100\<rparr>"]
    construction_fails_iff [of ex_doc ex_props] ex_construct
  by (simp add: ex_props_def)

section \<open>The viewport change coordinator: claims\<close>

lemma setViewport_fields:
  "viewportState (setViewport flush cells st) = cells"
  "viewport (setViewport flush cells st) = viewport st"
  "isMounted (setViewport flush cells st) = (isMounted st \<or> flush)"
  "gridRef_current (setViewport flush cells st) = gridRef_current st"
  "debounceResizer (setViewport flush cells st) = debounceResizer st"
  "clock (setViewport flush cells st) = clock st"
  "timeout (setViewport flush cells st) = timeout st"
  "hostCalls (setViewport flush cells st) = hostCalls st"
  "resizeStrategy (setViewport flush cells st) = resizeStrategy st"
  "resizeOnScroll (setViewport flush cells st) = resizeOnScroll st"
  by (simp_all add: setViewport_def mount_def Let_def)

lemma render_fields:
  "viewport (render st) = viewportState st"
  "viewportState (render st) = viewportState st"
  "isMounted (render st)"
  "gridRef_current (render st) = gridRef_current st"
  "debounceResizer (render st) = debounceResizer st"
  "clock (render st) = clock st"
  "timeout (render st) = timeout st"
  "hostCalls (render st) = hostCalls st"
  by (simp_all add: render_def mount_def)

lemma handleViewChange_suppressed:
  "\<not> qualifies flush cells st \<Longrightarrow> handleViewChange flush cells st = setViewport flush cells st"
  by (cases "resizeStrategy st") (auto simp: handleViewChange_def qualifies_def moved_def Let_def)

lemma handleViewChange_qualifying:
  "qualifies flush cells st \<Longrightarrow>
   handleViewChange flush cells st = schedule (origin cells) (setViewport flush cells st)"
  by (auto simp: handleViewChange_def qualifies_def moved_def origin_def Let_def)

lemma elapse_idle:
  "debounceResizer st = None \<Longrightarrow> elapse d st = st\<lparr>clock := clock st + d\<rparr>"
  by (simp add: elapse_def debounce_due_def)

lemma elapse_same_slot:
  "debounceResizer st1 = debounceResizer st2 \<Longrightarrow> clock st1 = clock st2 \<Longrightarrow>
   gridRef_current st1 = gridRef_current st2 \<Longrightarrow> hostCalls st1 = hostCalls st2 \<Longrightarrow>
   hostCalls (elapse d st1) = hostCalls (elapse d st2)"
  by (simp add: elapse_def split: option.splits)

text \<open>
  C3. A call of \<open>onViewportChange\<close> whose \<open>rowStartIndex\<close> and \<open>columnStartIndex\<close>
  equal those of the cached viewport that the callback reads schedules no re-layout
  call, whatever the stop indices are and however React processes the setter: the
  call does what the setter does and no more, the pending slot of the debounced
  function and the log of host calls are as before, and whatever time passes
  afterwards, the host sees the calls it would have seen without the notification.
\<close>

theorem unchanged_start_never_schedules:
  assumes "rowStartIndex cells = rowStartIndex (viewport st)"
    and "columnStartIndex cells = columnStartIndex (viewport st)"
  shows "onViewChange flush cells st = setViewport flush cells st \<and>
    debounceResizer (onViewChange flush cells st) = debounceResizer st \<and>
    hostCalls (onViewChange flush cells st) = hostCalls st \<and>
    (\<forall>d. hostCalls (elapse d (onViewChange flush cells st)) = hostCalls (elapse d st))"
proof -
  have "\<not> qualifies flush cells st"
    using assms by (simp add: qualifies_def moved_def)
  then have eq: "onViewChange flush cells st = setViewport flush cells st"
    by (simp add: onViewChange_def handleViewChange_suppressed)
  have "hostCalls (elapse d (setViewport flush cells st)) = hostCalls (elapse d st)" for d
    by (rule elapse_same_slot) (simp_all add: setViewport_fields)
  with eq show ?thesis by (simp add: setViewport_fields)
qed

lemma ex_mounted_fields:
  "timeout ex_mounted = 300" "resizeStrategy ex_mounted = lazy" "resizeOnScroll ex_mounted"
  "gridRef_current ex_mounted" "viewport ex_mounted = ex_cells 0 0 \<lparr>columnStopIndex := 0\<rparr>"
  "isMounted ex_mounted" "debounceResizer ex_mounted = None" "clock ex_mounted = 0"
  "hostCalls ex_mounted = []"
  by (simp_all add: ex_mounted_def mount_def ex_hook_fields ex_cells_def)

theorem unchanged_start_never_schedules_witness:
  "rowStartIndex (ex_cells 0 9) = rowStartIndex (viewport ex_mounted) \<and>
   columnStartIndex (ex_cells 0 9) = columnStartIndex (viewport ex_mounted) \<and>
   rowStopIndex (ex_cells 0 9) \<noteq> rowStopIndex (viewport ex_mounted) \<and>
   columnStopIndex (ex_cells 0 9) \<noteq> columnStopIndex (viewport ex_mounted) \<and>
   debounceResizer (onViewChange False (ex_cells 0 9) ex_mounted) = None \<and>
   hostCalls (elapse 1000 (onViewChange False (ex_cells 0 9) ex_mounted)) = [] \<and>
   debounceResizer (onViewChange True (ex_cells 0 9) ex_mounted) = None"
proof -
  have r: "rowStartIndex (ex_cells 0 9) = rowStartIndex (viewport ex_mounted)"
    and c: "columnStartIndex (ex_cells 0 9) = columnStartIndex (viewport ex_mounted)"
    by (simp_all add: ex_mounted_fields ex_cells_def)
  note w = unchanged_start_never_schedules [OF r c, of False]
  note w' = unchanged_start_never_schedules [OF r c, of True]
  have slot: "debounceResizer (onViewChange False (ex_cells 0 9) ex_mounted) = None"
    using w [THEN conjunct2, THEN conjunct1] by (simp add: ex_mounted_fields)
  have slot': "debounceResizer (onViewChange True (ex_cells 0 9) ex_mounted) = None"
    using w' [THEN conjunct2, THEN conjunct1] by (simp add: ex_mounted_fields)
  have "hostCalls (elapse 1000 ex_mounted) = []"
    by (simp add: elapse_idle ex_mounted_fields)
  then have log: "hostCalls (elapse 1000 (onViewChange False (ex_cells 0 9) ex_mounted)) = []"
    using w [THEN conjunct2, THEN conjunct2, THEN conjunct2, THEN spec, of 1000] by simp
  have "rowStopIndex (ex_cells 0 9) \<noteq> rowStopIndex (viewport ex_mounted)"
    and "columnStopIndex (ex_cells 0 9) \<noteq> columnStopIndex (viewport ex_mounted)"
    by (simp_all add: ex_mounted_fields ex_cells_def)
  with r c slot slot' log show ?thesis by blast
qed

text \<open>
  C6. Every call of \<open>onViewportChange\<close> replaces the cached viewport with the new
  one, unconditionally and before the decision: the state cell holds the new
  viewport after the call, in every state, and the next render hands it to the
  estimator; both outcomes of the decision, the suppressed one and the scheduling
  one, are built on the state in which \<^verbatim>\<open>setViewport(cells)\<close> has been done; and
  when the trigger is suppressed (full strategy, no recalculation on scroll,
  unchanged start indices, flag not set where the handler reads it) or the grid
  reference is absent, the setter is all the call does.
\<close>

theorem viewport_always_replaced:
  "viewportState (onViewChange flush cells st) = cells \<and>
   viewport (render (onViewChange flush cells st)) = cells \<and>
   (onViewChange flush cells st = setViewport flush cells st \<or>
    onViewChange flush cells st = schedule (origin cells) (setViewport flush cells st)) \<and>
   (resizeStrategy st = full \<or> \<not> resizeOnScroll st \<or> \<not> moved (viewport st) cells \<or>
    \<not> isMounted (setViewport flush cells st) \<or> \<not> gridRef_current st \<longrightarrow>
    onViewChange flush cells st = setViewport flush cells st)"
proof (cases "qualifies flush cells st")
  case True
  then show ?thesis
    by (auto simp: onViewChange_def handleViewChange_qualifying schedule_def setViewport_fields
        render_fields qualifies_def)
next
  case False
  then show ?thesis
    by (simp add: onViewChange_def handleViewChange_suppressed setViewport_fields render_fields)
qed

theorem viewport_always_replaced_witness:
  "viewportState (onViewChange False (ex_cells 3 9) ex_hook) = ex_cells 3 9 \<and>
   viewportState (onViewChange True (ex_cells 3 9) ex_mounted) = ex_cells 3 9 \<and>
   viewportState (onViewChange False (ex_cells 3 9) (ex_mounted\<lparr>gridRef_current := False\<rparr>)) =
     ex_cells 3 9 \<and>
   viewportState (onViewChange False (ex_cells 3 9) (ex_mounted\<lparr>resizeOnScroll := False\<rparr>)) =
     ex_cells 3 9 \<and>
   viewport (render (onViewChange False (ex_cells 3 9) ex_hook)) = ex_cells 3 9 \<and>
   onViewChange False (ex_cells 3 9) ex_hook = setViewport False (ex_cells 3 9) ex_hook"
proof -
  note w = viewport_always_replaced [of False "ex_cells 3 9" ex_hook]
  have "\<not> isMounted (setViewport False (ex_cells 3 9) ex_hook)"
    by (simp add: setViewport_fields ex_hook_fields)
  with w [THEN conjunct2, THEN conjunct2, THEN conjunct2]
  have "onViewChange False (ex_cells 3 9) ex_hook = setViewport False (ex_cells 3 9) ex_hook"
    by blast
  with w [THEN conjunct1] w [THEN conjunct2, THEN conjunct1]
    viewport_always_replaced [of True "ex_cells 3 9" ex_mounted, THEN conjunct1]
    viewport_always_replaced
      [of False "ex_cells 3 9" "ex_mounted\<lparr>gridRef_current := False\<rparr>", THEN conjunct1]
    viewport_always_replaced
      [of False "ex_cells 3 9" "ex_mounted\<lparr>resizeOnScroll := False\<rparr>", THEN conjunct1]
  show ?thesis by blast
qed

lemma step_isMounted: "isMounted st \<Longrightarrow> isMounted (step e st)"
  by (cases e)
     (simp_all add: mount_def render_def onViewChange_def handleViewChange_def setViewport_def
        schedule_def columnWidth_def elapse_def Let_def split: option.splits)

lemma run_isMounted: "isMounted st \<Longrightarrow> isMounted (run es st)"
  by (induction es arbitrary: st) (simp_all add: step_isMounted)

lemma step_keeps_flag:
  "e \<noteq> Mount \<Longrightarrow> e \<noteq> Render \<Longrightarrow> (\<forall>cells. e \<noteq> ViewChange True cells) \<Longrightarrow>
   isMounted (step e st) = isMounted st"
  by (cases e)
     (simp_all add: onViewChange_def handleViewChange_def setViewport_def schedule_def
        columnWidth_def elapse_def Let_def split: option.splits)

lemma ex_flushed:
  "debounceResizer (onViewChange True (ex_cells 1 6) ex_hook) =
     Some (300, \<lparr>rowIndex = 1, columnIndex = 0\<rparr>)"
  "gridRef_current (onViewChange True (ex_cells 1 6) ex_hook)"
  "clock (onViewChange True (ex_cells 1 6) ex_hook) = 0"
  "hostCalls (onViewChange True (ex_cells 1 6) ex_hook) = []"
  by (simp_all add: onViewChange_def handleViewChange_def setViewport_def mount_def schedule_def
      debounce_call_def ex_hook_fields ex_cells_def Let_def)

text \<open>
  C7, as stated, fails. The example hook is unmounted, the grid is attached and the
  viewport moves to row 1; the call comes from outside React's batching, so
  \<^verbatim>\<open>setViewport\<close> (line 110) re-renders at once and runs the pending mount effect
  before line 122 reads the flag. The call, made while the hook is unmounted,
  schedules a re-layout call, which reaches the grid after the delay.
\<close>

theorem unmounted_call_can_schedule:
  "\<not> isMounted ex_hook \<and>
   debounceResizer (onViewChange True (ex_cells 1 6) ex_hook) =
     Some (300, \<lparr>rowIndex = 1, columnIndex = 0\<rparr>) \<and>
   hostCalls (run [ViewChange True (ex_cells 1 6), Elapse 300] ex_hook) =
     [(300, ResetAfterIndices \<lparr>rowIndex = 1, columnIndex = 0\<rparr>)]"
  by (simp add: ex_hook_fields ex_flushed elapse_def debounce_due_def)

text \<open>
  C7, amended. The mounted flag goes one way, from unmounted to mounted, once: a
  constructed hook is unmounted, only the mount effect sets the flag (on its own, at
  a re-render, or within a setter that re-renders at once), and once set it stays
  set through every sequence of events. A call of \<open>onViewportChange\<close> schedules no
  re-layout call when the flag is still unset where the handler reads it, after
  \<^verbatim>\<open>setViewport\<close>; so none is scheduled while the hook is unmounted and the setter
  does not re-render at once. Once the hook is mounted, a qualifying change (a start
  index that differs from the viewport the callback closed over, lazy strategy,
  recalculation on scroll, grid reference present) leaves the deferred call pending,
  with the new start indices, due after the delay.
\<close>

theorem mounted_flag_gates_scheduling:
  "(useAutoSizer doc p = Inr st0 \<longrightarrow> \<not> isMounted st0) \<and>
   isMounted (step Mount st) \<and>
   (e \<noteq> Mount \<and> e \<noteq> Render \<and> (\<forall>c. e \<noteq> ViewChange True c) \<longrightarrow>
      isMounted (step e st) = isMounted st) \<and>
   (isMounted st \<longrightarrow> isMounted (run es st)) \<and>
   (\<not> isMounted (setViewport flush cells st) \<longrightarrow>
      onViewChange flush cells st = setViewport flush cells st \<and>
      debounceResizer (onViewChange flush cells st) = debounceResizer st) \<and>
   (\<not> isMounted st \<longrightarrow>
      onViewChange False cells st = st\<lparr>viewportState := cells\<rparr> \<and>
      debounceResizer (onViewChange False cells st) = debounceResizer st) \<and>
   (isMounted st \<and> moved (viewport st) cells \<and> resizeStrategy st = lazy \<and>
    resizeOnScroll st \<and> gridRef_current st \<longrightarrow>
      debounceResizer (onViewChange flush cells st) =
        Some (clock st + timeout st,
              \<lparr>rowIndex = rowStartIndex cells, columnIndex = columnStartIndex cells\<rparr>))"
proof (intro conjI impI)
  assume "useAutoSizer doc p = Inr st0"
  then show "\<not> isMounted st0"
    by (auto simp: useAutoSizer_def invariant_def Let_def split: if_splits)
next
  show "isMounted (step Mount st)" by (simp add: mount_def)
next
  assume "e \<noteq> Mount \<and> e \<noteq> Render \<and> (\<forall>c. e \<noteq> ViewChange True c)"
  then show "isMounted (step e st) = isMounted st" by (intro step_keeps_flag) simp_all
next
  assume "isMounted st"
  then show "isMounted (run es st)" by (rule run_isMounted)
next
  assume "\<not> isMounted (setViewport flush cells st)"
  then have "\<not> qualifies flush cells st" by (simp add: qualifies_def)
  then show "onViewChange flush cells st = setViewport flush cells st"
    and "debounceResizer (onViewChange flush cells st) = debounceResizer st"
    by (simp_all add: onViewChange_def handleViewChange_suppressed setViewport_fields)
next
  assume "\<not> isMounted st"
  then have "\<not> qualifies False cells st" by (simp add: qualifies_def setViewport_fields)
  then show "onViewChange False cells st = st\<lparr>viewportState := cells\<rparr>"
    and "debounceResizer (onViewChange False cells st) = debounceResizer st"
    by (simp_all add: onViewChange_def handleViewChange_suppressed setViewport_def)
next
  assume "isMounted st \<and> moved (viewport st) cells \<and> resizeStrategy st = lazy \<and>
    resizeOnScroll st \<and> gridRef_current st"
  then have "qualifies flush cells st" by (simp add: qualifies_def setViewport_fields)
  then show "debounceResizer (onViewChange flush cells st) =
      Some (clock st + timeout st,
            \<lparr>rowIndex = rowStartIndex cells, columnIndex = columnStartIndex cells\<rparr>)"
    by (simp add: onViewChange_def handleViewChange_qualifying schedule_def setViewport_fields
        debounce_call_def origin_def)
qed

theorem mounted_flag_gates_scheduling_witness:
  "\<not> isMounted ex_hook \<and> isMounted (step Mount ex_hook) \<and>
   isMounted (run [ViewChange False (ex_cells 1 6), Elapse 500, GridRef False] (step Mount ex_hook)) \<and>
   debounceResizer (onViewChange False (ex_cells 1 6) ex_hook) = None \<and>
   debounceResizer (onViewChange False (ex_cells 1 6) ex_mounted) =
     Some (300, \<lparr>rowIndex = 1, columnIndex = 0\<rparr>)"
proof -
  note w = mounted_flag_gates_scheduling
    [of ex_doc ex_props ex_hook ex_hook _ _ False "ex_cells 1 6"]
  note m = mounted_flag_gates_scheduling
    [of ex_doc ex_props ex_hook "step Mount ex_hook" _
      "[ViewChange False (ex_cells 1 6), Elapse 500, GridRef False]" False "ex_cells 1 6"]
  note q = mounted_flag_gates_scheduling
    [of ex_doc ex_props ex_hook ex_mounted _ _ False "ex_cells 1 6"]
  have a: "\<not> isMounted ex_hook"
    using w [THEN conjunct1] ex_construct by simp
  have b: "isMounted (step Mount ex_hook)"
    by (rule w [THEN conjunct2, THEN conjunct1])
  have c: "isMounted (run [ViewChange False (ex_cells 1 6), Elapse 500, GridRef False]
      (step Mount ex_hook))"
    using m [THEN conjunct2, THEN conjunct2, THEN conjunct2, THEN conjunct1] b by simp
  have d: "debounceResizer (onViewChange False (ex_cells 1 6) ex_hook) = None"
    using w [THEN conjunct2, THEN conjunct2, THEN conjunct2, THEN conjunct2, THEN conjunct2,
        THEN conjunct1] a
    by (simp add: ex_hook_fields)
  have "moved (viewport ex_mounted) (ex_cells 1 6)"
    by (simp add: moved_def ex_mounted_fields ex_cells_def)
  then have e: "debounceResizer (onViewChange False (ex_cells 1 6) ex_mounted) =
     Some (300, \<lparr>rowIndex = 1, columnIndex = 0\<rparr>)"
    using q [THEN conjunct2, THEN conjunct2, THEN conjunct2, THEN conjunct2, THEN conjunct2,
        THEN conjunct2]
    by (simp add: ex_mounted_fields ex_cells_def)
  from a b c d e show ?thesis by blast
qed

section \<open>The debounced re-layout: claims\<close>

lemma run_append: "run (xs @ ys) st = run ys (run xs st)"
  by (induction xs arbitrary: st) simp_all

lemma run_burst_Cons:
  "run (burst ((d, r, flush, cells) # rest)) st =
     run (burst rest) (onViewChange flush cells (before_call d r st))"
  by (simp add: run_append)

lemma armed_after_call:
  assumes "qualifies flush cells st"
  shows "armed cells (onViewChange flush cells st)"
    and "hostCalls (onViewChange flush cells st) = hostCalls st"
    and "timeout (onViewChange flush cells st) = timeout st"
    and "clock (onViewChange flush cells st) = clock st"
  using assms
  by (simp_all add: onViewChange_def handleViewChange_qualifying schedule_def setViewport_fields
      armed_def qualifies_def debounce_call_def)

lemma elapse_short:
  assumes "armed cells st" and "d < timeout st"
  shows "elapse d st = st\<lparr>clock := clock st + d\<rparr>"
  using assms by (simp add: elapse_def armed_def debounce_due_def)

lemma elapse_fire:
  assumes "armed cells st" and "timeout st \<le> d"
  shows "elapse d st =
    st\<lparr>clock := clock st + d, debounceResizer := None,
       hostCalls := hostCalls st @ [(clock st + timeout st, ResetAfterIndices (origin cells))]\<rparr>"
  using assms by (simp add: elapse_def armed_def debounce_due_def)

lemma before_call_short:
  assumes "armed cells st" and "d < timeout st"
  shows "hostCalls (before_call d r st) = hostCalls st"
    and "timeout (before_call d r st) = timeout st"
    and "clock (before_call d r st) = clock st + d"
  by (simp_all add: elapse_short [OF assms] render_fields)

lemma burst_armed:
  assumes "armed cells st" and "non_suppressed st rest" and "all_within (timeout st) rest"
  shows "armed (last_cells cells rest) (run (burst rest) st) \<and>
    hostCalls (run (burst rest) st) = hostCalls st \<and>
    timeout (run (burst rest) st) = timeout st \<and>
    clock (run (burst rest) st) = clock st + sum_list (map fst rest)"
  using assms
proof (induction rest arbitrary: cells st)
  case Nil
  then show ?case by simp
next
  case (Cons a rest)
  obtain d r flush cells' where a: "a = (d, r, flush, cells')" by (cases a)
  let ?st1 = "before_call d r st"
  let ?st2 = "onViewChange flush cells' ?st1"
  from Cons.prems a have short: "d < timeout st" and q: "qualifies flush cells' ?st1"
    and rest_ok: "non_suppressed ?st2 rest" and rest_in: "all_within (timeout st) rest"
    by simp_all
  note st1 = before_call_short [OF Cons.prems(1) short, of r]
  have armed2: "armed cells' ?st2" by (rule armed_after_call(1) [OF q])
  have st2: "hostCalls ?st2 = hostCalls st" "timeout ?st2 = timeout st"
    "clock ?st2 = clock st + d"
    using armed_after_call(2,3,4) [OF q] st1 by simp_all
  from rest_in st2 have rest_in2: "all_within (timeout ?st2) rest" by simp
  from Cons.IH [OF armed2 rest_ok rest_in2] st2
  show ?case unfolding a run_burst_Cons by simp
qed

text \<open>
  C4. Let \<open>onViewportChange\<close> be called N times, N at least 1, each call
  non-suppressed in the state in which it is made (with or without a re-render
  before it, however its setter is processed) and each within \<open>debounceDelayMs\<close> of
  the one before. Then nothing reaches the host grid during the burst, nothing
  reaches it while less than the delay has passed since the last call, and once the
  delay has passed exactly one call of \<^verbatim>\<open>resetAfterIndices\<close> has been made, at the
  time of the last call plus the delay, with the \<open>rowStartIndex\<close> and
  \<open>columnStartIndex\<close> of the last call; no further call follows however much time
  passes.
\<close>

theorem burst_collapses_to_last_call:
  assumes "qualifies flush cells st"
    and "non_suppressed (onViewChange flush cells st) rest"
    and "all_within (timeout st) rest"
  shows "hostCalls (run (ViewChange flush cells # burst rest) st) = hostCalls st \<and>
    clock (run (ViewChange flush cells # burst rest) st) = clock st + sum_list (map fst rest) \<and>
    (\<forall>e. e < timeout st \<longrightarrow>
       hostCalls (elapse e (run (ViewChange flush cells # burst rest) st)) = hostCalls st) \<and>
    (\<forall>e. timeout st \<le> e \<longrightarrow>
       hostCalls (elapse e (run (ViewChange flush cells # burst rest) st)) =
         hostCalls st @
           [(clock (run (ViewChange flush cells # burst rest) st) + timeout st,
             ResetAfterIndices
               \<lparr>rowIndex = rowStartIndex (last_cells cells rest),
                columnIndex = columnStartIndex (last_cells cells rest)\<rparr>)] \<and>
       (\<forall>e'. hostCalls (elapse e' (elapse e (run (ViewChange flush cells # burst rest) st))) =
          hostCalls (elapse e (run (ViewChange flush cells # burst rest) st))))"
proof -
  let ?st1 = "onViewChange flush cells st"
  let ?st' = "run (burst rest) ?st1"
  have unfold: "run (ViewChange flush cells # burst rest) st = ?st'"
    by simp
  have armed1: "armed cells ?st1" by (rule armed_after_call(1) [OF assms(1)])
  have within: "all_within (timeout ?st1) rest"
    using assms(3) armed_after_call(3) [OF assms(1)] by simp
  from burst_armed [OF armed1 assms(2) within]
  have armed: "armed (last_cells cells rest) ?st'"
    and log: "hostCalls ?st' = hostCalls st"
    and wait: "timeout ?st' = timeout st"
    and time: "clock ?st' = clock st + sum_list (map fst rest)"
    using armed_after_call(2,3,4) [OF assms(1)] by simp_all
  have quiet: "hostCalls (elapse e ?st') = hostCalls st" if "e < timeout st" for e
    using that elapse_short [OF armed, of e] log wait by simp
  have fire: "hostCalls (elapse e ?st') =
      hostCalls st @ [(clock ?st' + timeout st,
        ResetAfterIndices \<lparr>rowIndex = rowStartIndex (last_cells cells rest),
                           columnIndex = columnStartIndex (last_cells cells rest)\<rparr>)]"
    and once: "hostCalls (elapse e' (elapse e ?st')) = hostCalls (elapse e ?st')"
    if "timeout st \<le> e" for e e'
  proof -
    have f: "elapse e ?st' = ?st'\<lparr>clock := clock ?st' + e, debounceResizer := None,
       hostCalls := hostCalls ?st' @
         [(clock ?st' + timeout ?st', ResetAfterIndices (origin (last_cells cells rest)))]\<rparr>"
      using that wait by (intro elapse_fire [OF armed]) simp
    show "hostCalls (elapse e ?st') =
      hostCalls st @ [(clock ?st' + timeout st,
        ResetAfterIndices \<lparr>rowIndex = rowStartIndex (last_cells cells rest),
                           columnIndex = columnStartIndex (last_cells cells rest)\<rparr>)]"
      by (simp only: f) (simp add: log wait origin_def)
    have "debounceResizer (elapse e ?st') = None" by (simp only: f) simp
    then show "hostCalls (elapse e' (elapse e ?st')) = hostCalls (elapse e ?st')"
      by (simp add: elapse_idle)
  qed
  from log time quiet fire once show ?thesis unfolding unfold by blast
qed

lemma ex_first_call:
  "onViewChange False (ex_cells 1 6) ex_mounted =
     ex_mounted\<lparr>viewportState := ex_cells 1 6,
                debounceResizer := Some (300, \<lparr>rowIndex = 1, columnIndex = 0\<rparr>)\<rparr>"
  by (simp add: onViewChange_def handleViewChange_def setViewport_def schedule_def
      debounce_call_def ex_mounted_fields ex_cells_def Let_def)

lemma ex_qualifies: "qualifies False (ex_cells 1 6) ex_mounted"
  by (simp add: qualifies_def moved_def setViewport_fields ex_mounted_fields ex_cells_def)

lemma ex_second_call:
  "qualifies False (ex_cells 2 7)
     (before_call 100 True (onViewChange False (ex_cells 1 6) ex_mounted))"
  "onViewChange False (ex_cells 2 7)
     (before_call 100 True (onViewChange False (ex_cells 1 6) ex_mounted)) =
   ex_mounted\<lparr>viewport := ex_cells 1 6, viewportState := ex_cells 2 7, clock := 100,
              debounceResizer := Some (400, \<lparr>rowIndex = 2, columnIndex = 0\<rparr>)\<rparr>"
  by (simp_all add: ex_first_call qualifies_def moved_def onViewChange_def handleViewChange_def
      setViewport_def schedule_def debounce_call_def render_def mount_def elapse_def
      debounce_due_def ex_mounted_fields ex_cells_def Let_def)
     (simp_all add: ex_mounted_def mount_def ex_hook_def ex_setFont)

lemma ex_third_call:
  "qualifies True (ex_cells 3 8)
     (before_call 299 False
       (ex_mounted\<lparr>viewport := ex_cells 1 6, viewportState := ex_cells 2 7, clock := 100,
              debounceResizer := Some (400, \<lparr>rowIndex = 2, columnIndex = 0\<rparr>)\<rparr>))"
  by (simp add: qualifies_def moved_def setViewport_fields elapse_def debounce_due_def
      ex_mounted_fields ex_cells_def)

lemma ex_non_suppressed:
  "non_suppressed (onViewChange False (ex_cells 1 6) ex_mounted) ex_rest"
  unfolding ex_rest_def non_suppressed.simps ex_second_call(2)
  using ex_second_call(1) ex_third_call by simp

theorem burst_collapses_to_last_call_witness:
  "hostCalls (run (ViewChange False (ex_cells 1 6) # burst ex_rest) ex_mounted) = [] \<and>
   clock (run (ViewChange False (ex_cells 1 6) # burst ex_rest) ex_mounted) = 399 \<and>
   hostCalls (elapse 299 (run (ViewChange False (ex_cells 1 6) # burst ex_rest) ex_mounted)) = [] \<and>
   hostCalls (elapse 300 (run (ViewChange False (ex_cells 1 6) # burst ex_rest) ex_mounted)) =
     [(699, ResetAfterIndices \<lparr>rowIndex = 3, columnIndex = 0\<rparr>)] \<and>
   hostCalls
     (elapse 5000 (elapse 300 (run (ViewChange False (ex_cells 1 6) # burst ex_rest) ex_mounted))) =
     [(699, ResetAfterIndices \<lparr>rowIndex = 3, columnIndex = 0\<rparr>)]"
proof -
  have within: "all_within (timeout ex_mounted) ex_rest"
    by (simp add: ex_rest_def ex_mounted_fields)
  have final: "last_cells (ex_cells 1 6) ex_rest = ex_cells 3 8"
    by (simp add: ex_rest_def)
  note w = burst_collapses_to_last_call [OF ex_qualifies ex_non_suppressed within]
  let ?st' = "run (ViewChange False (ex_cells 1 6) # burst ex_rest) ex_mounted"
  have a: "hostCalls ?st' = []"
    using w [THEN conjunct1] by (simp add: ex_mounted_fields)
  have b: "clock ?st' = 399"
    using w [THEN conjunct2, THEN conjunct1] by (simp add: ex_mounted_fields ex_rest_def)
  have c: "hostCalls (elapse 299 ?st') = []"
    using w [THEN conjunct2, THEN conjunct2, THEN conjunct1, THEN spec, of 299]
    by (simp add: ex_mounted_fields)
  note f = w [THEN conjunct2, THEN conjunct2, THEN conjunct2, THEN spec, of 300]
  have d: "hostCalls (elapse 300 ?st') = [(699, ResetAfterIndices \<lparr>rowIndex = 3, columnIndex = 0\<rparr>)]"
    using f b by (simp add: ex_mounted_fields final) (simp add: ex_cells_def)
  have e: "hostCalls (elapse 5000 (elapse 300 ?st')) = hostCalls (elapse 300 ?st')"
    using f by (simp add: ex_mounted_fields)
  from a b c d e show ?thesis by simp
qed

text \<open>
  Without a re-render between two calls the second goes to the callback of the first:
  it compares with the viewport of the old render, so a return to the old start
  indices is suppressed and the deferred call keeps the origin of the first call.
\<close>

lemma stale_callback_keeps_first_origin:
  "hostCalls
     (run [ViewChange False (ex_cells 1 6), Elapse 0, ViewChange False (ex_cells 0 6), Elapse 300]
       ex_mounted) =
   [(300, ResetAfterIndices \<lparr>rowIndex = 1, columnIndex = 0\<rparr>)]"
  by (simp add: ex_first_call)
     (simp add: onViewChange_def handleViewChange_def setViewport_def elapse_def debounce_due_def
        ex_mounted_fields ex_cells_def Let_def)

end
